theory Spec2Isabelle
  imports Main "HOL-Library.Log_Nat"
begin

section \<open>JavaScript numbers\<close>

text \<open>
  A JavaScript Number is an IEEE 754 double.  A finite double is represented by the rational
  it denotes; \<open>fl\<close> rounds a rational to the nearest double (ties to even, 53 bits of
  precision, gradual underflow below \<open>2^-1022\<close>, overflow to an infinity from \<open>2^1024\<close>).
  The two zeros are identified: nothing below divides by a number or looks at the sign
  of a zero.
\<close>

datatype number = NaN | NInf | Fin rat | PInf

text \<open>Powers with an integer exponent, by repeated squaring.\<close>

function ipow :: "rat \<Rightarrow> int \<Rightarrow> rat" where
  "ipow b e = (if e \<le> 0 then 1
               else if even e then (let h = ipow b (e div 2) in h * h)
               else b * ipow b (e - 1))"
  by pat_completeness auto
termination
  by (relation "measure (\<lambda>(b, e). nat e)") auto

declare ipow.simps [simp del]

definition pow2 :: "int \<Rightarrow> rat" where
  "pow2 e = (if 0 \<le> e then ipow 2 e else 1 / ipow 2 (- e))"

definition pow10 :: "int \<Rightarrow> rat" where
  "pow10 e = (if 0 \<le> e then ipow 10 e else 1 / ipow 10 (- e))"

text \<open>\<open>binade q\<close> is the exponent \<open>e\<close> with \<open>2^e \<le> q < 2^(e+1)\<close>, for a positive \<open>q\<close>.\<close>

definition binade :: "rat \<Rightarrow> int" where
  "binade q = (case quotient_of q of (a, b) \<Rightarrow>
     (let e0 = bitlen a - bitlen b in if pow2 e0 \<le> q then e0 else e0 - 1))"

definition round_half_even :: "rat \<Rightarrow> int" where
  "round_half_even q = (let f = \<lfloor>q\<rfloor>; r = q - of_int f in
     if r < 1 / 2 then f else if 1 / 2 < r then f + 1 else if even f then f else f + 1)"

definition fl :: "rat \<Rightarrow> number" where
  "fl q = (if q = 0 then Fin 0 else
     (let m = \<bar>q\<bar>;
          e = max (binade m) (- 1022);
          ulp = pow2 (e - 52);
          n = round_half_even (m / ulp);
          r = of_int n * ulp
      in if 1023 < e \<or> (e = 1023 \<and> n = 2 ^ 53) then (if q < 0 then NInf else PInf)
         else Fin (if q < 0 then - r else r)))"

text \<open>Addition and multiplication of Numbers (the operators \<open>+\<close> and \<open>*\<close> on two Numbers).\<close>

fun num_add :: "number \<Rightarrow> number \<Rightarrow> number" where
  "num_add NaN _ = NaN"
| "num_add _ NaN = NaN"
| "num_add PInf NInf = NaN"
| "num_add NInf PInf = NaN"
| "num_add PInf _ = PInf"
| "num_add _ PInf = PInf"
| "num_add NInf _ = NInf"
| "num_add _ NInf = NInf"
| "num_add (Fin a) (Fin b) = fl (a + b)"

definition num_sign :: "number \<Rightarrow> int" where
  "num_sign x = (case x of NaN \<Rightarrow> 0 | NInf \<Rightarrow> - 1 | PInf \<Rightarrow> 1 | Fin q \<Rightarrow> sgn \<lfloor>sgn q\<rfloor>)"

fun num_mul :: "number \<Rightarrow> number \<Rightarrow> number" where
  "num_mul NaN _ = NaN"
| "num_mul _ NaN = NaN"
| "num_mul (Fin a) (Fin b) = fl (a * b)"
| "num_mul x y = (let s = num_sign x * num_sign y in
     if s = 0 then NaN else if s < 0 then NInf else PInf)"

text \<open>\<open>==\<close> on two Numbers: \<open>NaN\<close> equals nothing.\<close>

definition num_eq :: "number \<Rightarrow> number \<Rightarrow> bool" where
  "num_eq x y = (x \<noteq> NaN \<and> x = y)"

text \<open>Truthiness of a Number: zero and \<open>NaN\<close> are falsy.\<close>

definition num_truthy :: "number \<Rightarrow> bool" where
  "num_truthy x = (x \<noteq> NaN \<and> x \<noteq> Fin 0)"

subsection \<open>Number to string\<close>

definition digit_char :: "int \<Rightarrow> char" where
  "digit_char d = char_of (48 + d)"

text \<open>The decimal digits of a non-negative integer.\<close>

function digits :: "int \<Rightarrow> string" where
  "digits n = (if n < 10 then [digit_char n] else digits (n div 10) @ [digit_char (n mod 10)])"
  by pat_completeness auto
termination
  by (relation "measure nat") auto

declare digits.simps [simp del]

text \<open>\<open>decade q\<close> is the \<open>n\<close> with \<open>10^(n-1) \<le> q < 10^n\<close>, for a positive \<open>q\<close>.\<close>

definition decade :: "rat \<Rightarrow> int" where
  "decade q = (case quotient_of q of (a, b) \<Rightarrow>
     (let n0 = int (length (digits a)) - int (length (digits b))
      in if pow10 n0 \<le> q then n0 + 1 else n0))"

text \<open>
  Number::toString (radix 10) of a positive finite \<open>m\<close> first picks integers \<open>n\<close>, \<open>k\<close>, \<open>s\<close>
  with \<open>10^(k-1) \<le> s < 10^k\<close>, \<open>s * 10^(n-k)\<close> rounding to \<open>m\<close>, and \<open>k\<close> as small as possible;
  among several \<open>s\<close> the one closest to \<open>m\<close>.  \<open>shortest\<close> tries \<open>k = 1, 2, \<dots>\<close>; for each \<open>k\<close>
  only the two multiples of \<open>10^(n-k)\<close> around \<open>m\<close> can qualify.  Seventeen digits identify
  every double, so the search ends before its bound; at the bound it takes the nearest
  candidate.
\<close>

fun shortest :: "nat \<Rightarrow> nat \<Rightarrow> rat \<Rightarrow> int \<Rightarrow> int \<times> nat \<times> int" where
  "shortest 0 k m n = (n, k, round_half_even (m / pow10 (n - int k)))"
| "shortest (Suc fuel) k m n =
     (let scale = pow10 (n - int k);
          lo = \<lfloor>m / scale\<rfloor>;
          hi = lo + 1;
          oklo = (fl (of_int lo * scale) = Fin m);
          okhi = (fl (of_int hi * scale) = Fin m);
          dlo = m - of_int lo * scale;
          dhi = of_int hi * scale - m;
          uselo = (oklo \<and> (\<not> okhi \<or> dlo < dhi \<or> (dlo = dhi \<and> even lo)))
      in if uselo then (n, k, lo)
         else if okhi then (if hi = 10 ^ k then (n + 1, 1, 1) else (n, k, hi))
         else shortest fuel (Suc k) m n)"

definition format_nks :: "int \<Rightarrow> nat \<Rightarrow> int \<Rightarrow> string" where
  "format_nks n k s =
     (let ds = digits s; e = n - 1 in
      if int k \<le> n \<and> n \<le> 21 then ds @ replicate (nat (n - int k)) CHR ''0''
      else if 0 < n \<and> n \<le> 21 then take (nat n) ds @ ''.'' @ drop (nat n) ds
      else if - 6 < n \<and> n \<le> 0 then ''0.'' @ replicate (nat (- n)) CHR ''0'' @ ds
      else (if k = 1 then ds else take 1 ds @ ''.'' @ drop 1 ds)
           @ ''e'' @ (if e < 0 then ''-'' else ''+'') @ digits \<bar>e\<bar>)"

definition positive_toString :: "rat \<Rightarrow> string" where
  "positive_toString m = (case shortest 17 1 m (decade m) of (n, k, s) \<Rightarrow> format_nks n k s)"

definition Number_toString :: "number \<Rightarrow> string" where
  "Number_toString x = (case x of
       NaN \<Rightarrow> ''NaN''
     | PInf \<Rightarrow> ''Infinity''
     | NInf \<Rightarrow> ''-Infinity''
     | Fin q \<Rightarrow> (if q = 0 then ''0''
                 else if q < 0 then ''-'' @ positive_toString (- q)
                 else positive_toString q))"

section \<open>Regular expressions\<close>

text \<open>
  The fragment of regular expressions used by the controller, matched with derivatives.
  \<open>regexp_test\<close> is \<open>RegExp.prototype.test\<close> for a pattern anchored by \<open>^\<close> and \<open>$\<close> (no flags):
  the whole string has to match.
\<close>

datatype regex = Never | Empty | Chr char | Digit | Seq regex regex | Alt regex regex | Star regex

definition Plus :: "regex \<Rightarrow> regex" where
  "Plus r = Seq r (Star r)"

definition is_digit :: "char \<Rightarrow> bool" where
  "is_digit c = (c \<in> set ''0123456789'')"

fun nullable :: "regex \<Rightarrow> bool" where
  "nullable Never = False"
| "nullable Empty = True"
| "nullable (Chr c) = False"
| "nullable Digit = False"
| "nullable (Seq r s) = (nullable r \<and> nullable s)"
| "nullable (Alt r s) = (nullable r \<or> nullable s)"
| "nullable (Star r) = True"

fun deriv :: "char \<Rightarrow> regex \<Rightarrow> regex" where
  "deriv c Never = Never"
| "deriv c Empty = Never"
| "deriv c (Chr d) = (if c = d then Empty else Never)"
| "deriv c Digit = (if is_digit c then Empty else Never)"
| "deriv c (Seq r s) =
     (if nullable r then Alt (Seq (deriv c r) s) (deriv c s) else Seq (deriv c r) s)"
| "deriv c (Alt r s) = Alt (deriv c r) (deriv c s)"
| "deriv c (Star r) = Seq (deriv c r) (Star r)"

fun regexp_test :: "regex \<Rightarrow> string \<Rightarrow> bool" where
  "regexp_test r [] = nullable r"
| "regexp_test r (c # cs) = regexp_test (deriv c r) cs"

text \<open>The language of a regular expression, to state what the matcher accepts.\<close>

definition conc :: "string set \<Rightarrow> string set \<Rightarrow> string set" where
  "conc A B = {u @ v | u v. u \<in> A \<and> v \<in> B}"

inductive_set star :: "string set \<Rightarrow> string set" for A :: "string set" where
  star_nil: "[] \<in> star A"
| star_app: "u \<in> A \<Longrightarrow> v \<in> star A \<Longrightarrow> u @ v \<in> star A"

fun lang :: "regex \<Rightarrow> string set" where
  "lang Never = {}"
| "lang Empty = {[]}"
| "lang (Chr c) = {[c]}"
| "lang Digit = {[c] | c. is_digit c}"
| "lang (Seq r s) = conc (lang r) (lang s)"
| "lang (Alt r s) = lang r \<union> lang s"
| "lang (Star r) = star (lang r)"

section \<open>Sequence range compaction\<close>

text \<open>
  \<^verbatim>\<open>/^(\d+|\d+\.\d*|\d*\.\d+)$/\<close>, line 378.
\<close>

definition sequence_pattern :: regex where
  "sequence_pattern =
     Alt (Plus Digit)
       (Alt (Seq (Plus Digit) (Seq (Chr CHR ''.'') (Star Digit)))
            (Seq (Star Digit) (Seq (Chr CHR ''.'') (Plus Digit))))"

definition digits_value :: "string \<Rightarrow> int" where
  "digits_value ds = foldl (\<lambda>a c. 10 * a + (of_char c - 48)) 0 ds"

text \<open>
  \<open>parseFloat\<close> reads the longest prefix that is a decimal literal and rounds its value to a
  double; without a digit the result is \<open>NaN\<close>.  Signs, exponents, leading white space and
  \<open>Infinity\<close> are left out: the reducer calls \<open>parseFloat\<close> only on a token that the pattern
  accepts (line 379), and such a token is digits with at most one point.
\<close>

definition parseFloat :: "string \<Rightarrow> number" where
  "parseFloat s =
     (let ds = takeWhile is_digit s;
          rest = dropWhile is_digit s;
          fs = (case rest of [] \<Rightarrow> [] | c # cs \<Rightarrow> if c = CHR ''.'' then takeWhile is_digit cs else [])
      in if ds = [] \<and> fs = [] then NaN
         else fl (of_int (digits_value (ds @ fs)) / pow10 (int (length fs))))"

text \<open>
  A sequence value is the token itself (a string) or, after line 379, a Number.
\<close>

datatype seqval = Str string | Num number

record range =
  start :: seqval
  end' :: seqval
  isNumber :: bool

text \<open>
  \<open>x + 1\<close>: numeric addition on a Number, concatenation of \<open>"1"\<close> on a string.
\<close>

fun plus_one :: "seqval \<Rightarrow> seqval" where
  "plus_one (Num x) = Num (num_add x (Fin 1))"
| "plus_one (Str s) = Str (s @ ''1'')"

text \<open>
  \<open>x == y\<close> on two Numbers or on two strings.  Between a string and a Number, \<open>==\<close> converts
  the string with ToNumber, which is not modelled: the comparison is \<open>None\<close>, and the
  functions below propagate it.  \<open>seriesSequenceList_total\<close> shows that it never happens.
\<close>

fun loose_eq :: "seqval \<Rightarrow> seqval \<Rightarrow> bool option" where
  "loose_eq (Num x) (Num y) = Some (num_eq x y)"
| "loose_eq (Str s) (Str t) = Some (s = t)"
| "loose_eq _ _ = None"

fun ToString :: "seqval \<Rightarrow> string" where
  "ToString (Str s) = s"
| "ToString (Num x) = Number_toString x"

text \<open>The callback of \<open>reduce\<close>, lines 376 to 389.\<close>

definition reducer :: "range list \<Rightarrow> string \<Rightarrow> range list option" where
  "reducer ranges token =
     (let isNum = regexp_test sequence_pattern token;
          currentSequence = (if isNum then Num (parseFloat token) else Str token);
          pushed = ranges @ [\<lparr>start = currentSequence, end' = currentSequence, isNumber = isNum\<rparr>]
      in if ranges \<noteq> [] \<and> isNum \<and> isNumber (last ranges)
         then (case loose_eq (plus_one (end' (last ranges))) currentSequence of
                 None \<Rightarrow> None
               | Some True \<Rightarrow> Some (butlast ranges @ [(last ranges)\<lparr>end' := currentSequence\<rparr>])
               | Some False \<Rightarrow> Some pushed)
         else Some pushed)"

fun reduce_ranges :: "range list \<Rightarrow> string list \<Rightarrow> range list option" where
  "reduce_ranges ranges [] = Some ranges"
| "reduce_ranges ranges (t # ts) =
     (case reducer ranges t of None \<Rightarrow> None | Some ranges' \<Rightarrow> reduce_ranges ranges' ts)"

text \<open>The callback of \<open>map\<close>, line 390: the start alone, or the template \<open>start-end\<close>.\<close>

definition render_range :: "range \<Rightarrow> seqval option" where
  "render_range r =
     (case loose_eq (start r) (end' r) of
        None \<Rightarrow> None
      | Some True \<Rightarrow> Some (start r)
      | Some False \<Rightarrow> Some (Str (ToString (start r) @ ''-'' @ ToString (end' r))))"

fun render_all :: "range list \<Rightarrow> seqval list option" where
  "render_all [] = Some []"
| "render_all (r # rs) =
     (case render_range r of
        None \<Rightarrow> None
      | Some v \<Rightarrow> (case render_all rs of None \<Rightarrow> None | Some vs \<Rightarrow> Some (v # vs)))"

text \<open>\<open>Array.prototype.join\<close> on strings.\<close>

fun join :: "string \<Rightarrow> string list \<Rightarrow> string" where
  "join sep [] = []"
| "join sep [x] = x"
| "join sep (x # y # ys) = x @ sep @ join sep (y # ys)"

text \<open>
  Lines 376 to 391, on the tokens that \<open>naturalSort(...).asc()\<close> hands to \<open>reduce\<close>.
\<close>

definition seriesSequenceList :: "string list \<Rightarrow> string option" where
  "seriesSequenceList tokens =
     (case reduce_ranges [] tokens of
        None \<Rightarrow> None
      | Some ranges \<Rightarrow>
          (case render_all ranges of
             None \<Rightarrow> None
           | Some vs \<Rightarrow> Some (join '', '' (map ToString vs))))"

subsection \<open>Notions used to state the properties\<close>

text \<open>
  \<open>is_numeric\<close> is the classification of a token (\<open>isNumber\<close>, line 378), \<open>current_of\<close> the
  value of \<open>currentSequence\<close> after line 379, and \<open>new_range\<close> the object pushed in line 385.
\<close>

definition is_numeric :: "string \<Rightarrow> bool" where
  "is_numeric token = regexp_test sequence_pattern token"

definition current_of :: "string \<Rightarrow> seqval" where
  "current_of token = (if is_numeric token then Num (parseFloat token) else Str token)"

definition new_range :: "string \<Rightarrow> range" where
  "new_range token =
     \<lparr>start = current_of token, end' = current_of token, isNumber = is_numeric token\<rparr>"

text \<open>
  The ranges that the reducer builds: a numeric range holds two Numbers, neither \<open>NaN\<close>; any
  other range holds one string twice.
\<close>

definition wf_range :: "range \<Rightarrow> bool" where
  "wf_range r = (case (start r, end' r) of
       (Num x, Num y) \<Rightarrow> isNumber r \<and> x \<noteq> NaN \<and> y \<noteq> NaN
     | (Str s, Str t) \<Rightarrow> \<not> isNumber r \<and> s = t
     | _ \<Rightarrow> False)"

definition ranges_ok :: "range list \<Rightarrow> bool" where
  "ranges_ok rs = list_all wf_range rs"

text \<open>
  The tokens described as numeric: one or more digits; or digits, a decimal point and
  digits, with a digit before or after the point.
\<close>

definition decimal_shape :: "string \<Rightarrow> bool" where
  "decimal_shape s \<longleftrightarrow>
     (s \<noteq> [] \<and> list_all is_digit s) \<or>
     (\<exists>ds fs. s = ds @ ''.'' @ fs \<and> list_all is_digit ds \<and> list_all is_digit fs \<and>
        (ds \<noteq> [] \<or> fs \<noteq> []))"

text \<open>
  The text of a closed range as described: the start alone when start and end are equal,
  and \<open>start-end\<close> otherwise.
\<close>

definition range_text :: "range \<Rightarrow> string" where
  "range_text r = (if start r = end' r then ToString (start r)
                   else ToString (start r) @ ''-'' @ ToString (end' r))"

section \<open>Requests, objects and arrays\<close>

text \<open>
  The only exception that the modelled code can raise: reading a property of \<open>undefined\<close> or
  \<open>null\<close>, or calling something that is not a function.
\<close>

datatype error = TypeError

subsection \<open>Query parameters\<close>

text \<open>
  A parameter of \<open>req.query\<close> is absent (\<open>undefined\<close>) or a string.  Repeated and nested
  parameters, which arrive as arrays and objects, are not modelled.
\<close>

type_synonym qparam = "string option"

definition truthy_param :: "qparam \<Rightarrow> bool" where
  "truthy_param p = (case p of None \<Rightarrow> False | Some s \<Rightarrow> s \<noteq> [])"

subsection \<open>String to Number\<close>

text \<open>
  \<open>Number(s)\<close> and the conversion inside \<open>isNaN(s)\<close> for a string \<open>s\<close>: white space is trimmed
  (the ASCII white space; a \<open>char\<close> is a byte), the empty string is 0, then a binary, octal
  or hexadecimal integer literal, or an optionally signed decimal literal or \<open>Infinity\<close>;
  anything else is \<open>NaN\<close>.
\<close>

definition is_space :: "char \<Rightarrow> bool" where
  "is_space c = (c \<in> set [CHR 0x09, CHR 0x0A, CHR 0x0B, CHR 0x0C, CHR 0x0D, CHR 0x20])"

definition trim :: "string \<Rightarrow> string" where
  "trim s = rev (dropWhile is_space (rev (dropWhile is_space s)))"

definition digit_of :: "char \<Rightarrow> int option" where
  "digit_of c = (let n = of_char c :: int in
     if 48 \<le> n \<and> n \<le> 57 then Some (n - 48)
     else if 97 \<le> n \<and> n \<le> 102 then Some (n - 87)
     else if 65 \<le> n \<and> n \<le> 70 then Some (n - 55)
     else None)"

fun radix_value :: "int \<Rightarrow> int \<Rightarrow> string \<Rightarrow> int option" where
  "radix_value r acc [] = Some acc"
| "radix_value r acc (c # cs) =
     (case digit_of c of
        None \<Rightarrow> None
      | Some d \<Rightarrow> if d < r then radix_value r (r * acc + d) cs else None)"

definition non_decimal :: "int \<Rightarrow> string \<Rightarrow> number" where
  "non_decimal r ds =
     (if ds = [] then NaN
      else case radix_value r 0 ds of None \<Rightarrow> NaN | Some v \<Rightarrow> fl (of_int v))"

definition exponent_part :: "string \<Rightarrow> int option" where
  "exponent_part r = (case r of
       [] \<Rightarrow> Some 0
     | c # cs \<Rightarrow>
         if c = CHR ''e'' \<or> c = CHR ''E'' then
           (let neg = (case cs of [] \<Rightarrow> False | d # _ \<Rightarrow> d = CHR ''-'');
                ds = (case cs of [] \<Rightarrow> [] | d # ds' \<Rightarrow> if d = CHR ''+'' \<or> d = CHR ''-'' then ds' else cs)
            in if ds \<noteq> [] \<and> list_all is_digit ds
               then Some (if neg then - digits_value ds else digits_value ds)
               else None)
         else None)"

definition unsigned_decimal :: "string \<Rightarrow> number" where
  "unsigned_decimal s =
     (if s = ''Infinity'' then PInf
      else
        (let ds = takeWhile is_digit s;
             r1 = dropWhile is_digit s;
             point = (case r1 of [] \<Rightarrow> False | c # _ \<Rightarrow> c = CHR ''.'');
             fs = (if point then takeWhile is_digit (tl r1) else []);
             r2 = (if point then dropWhile is_digit (tl r1) else r1)
         in if ds = [] \<and> fs = [] then NaN
            else case exponent_part r2 of
                   None \<Rightarrow> NaN
                 | Some e \<Rightarrow> fl (of_int (digits_value (ds @ fs)) * pow10 (e - int (length fs)))))"

definition num_neg :: "number \<Rightarrow> number" where
  "num_neg x = (case x of NaN \<Rightarrow> NaN | NInf \<Rightarrow> PInf | PInf \<Rightarrow> NInf | Fin q \<Rightarrow> Fin (- q))"

definition StringToNumber :: "string \<Rightarrow> number" where
  "StringToNumber s0 =
     (let s = trim s0 in
      if s = [] then Fin 0
      else if take 2 s = ''0x'' \<or> take 2 s = ''0X'' then non_decimal 16 (drop 2 s)
      else if take 2 s = ''0o'' \<or> take 2 s = ''0O'' then non_decimal 8 (drop 2 s)
      else if take 2 s = ''0b'' \<or> take 2 s = ''0B'' then non_decimal 2 (drop 2 s)
      else if hd s = CHR ''+'' then unsigned_decimal (tl s)
      else if hd s = CHR ''-'' then num_neg (unsigned_decimal (tl s))
      else unsigned_decimal s)"

text \<open>
  \<^verbatim>\<open>p && !isNaN(p) ? Number(p) : dflt\<close>, lines 227, 228 and 705.
\<close>

definition query_number :: "number \<Rightarrow> qparam \<Rightarrow> number" where
  "query_number dflt p =
     (case p of
        None \<Rightarrow> dflt
      | Some s \<Rightarrow> if s \<noteq> [] \<and> StringToNumber s \<noteq> NaN then StringToNumber s else dflt)"

subsection \<open>Array.prototype.slice\<close>

text \<open>
  \<open>slice(from, until)\<close> converts each bound with ToIntegerOrInfinity (\<open>NaN\<close> is 0, a fraction is
  truncated toward zero); a negative bound counts from the end of the array; both are
  clamped to the array.
\<close>

definition to_integer :: "rat \<Rightarrow> int" where
  "to_integer q = (if q < 0 then - \<lfloor>- q\<rfloor> else \<lfloor>q\<rfloor>)"

definition relative_index :: "number \<Rightarrow> nat \<Rightarrow> nat" where
  "relative_index x len = (case x of
       NaN \<Rightarrow> 0
     | NInf \<Rightarrow> 0
     | PInf \<Rightarrow> len
     | Fin q \<Rightarrow> (let t = to_integer q in
                  if t < 0 then nat (int len + t) else min (nat t) len))"

definition slice :: "'a list \<Rightarrow> number \<Rightarrow> number \<Rightarrow> 'a list" where
  "slice xs from until =
     (let k = relative_index from (length xs);
          final = relative_index until (length xs)
      in take (final - k) (drop k xs))"

subsection \<open>Plain objects used as maps\<close>

text \<open>
  An object created by \<open>{}\<close> and filled by assignments \<open>o[k] = v\<close>: its own properties, in the
  order of their creation.  Reading \<open>o[k]\<close> finds an own property, or else a property of
  \<open>Object.prototype\<close> (all of them truthy: functions, and the prototype itself for
  \<open>__proto__\<close>), or else \<open>undefined\<close>.
\<close>

type_synonym 'v jsobject = "(string \<times> 'v) list"

definition object_prototype_keys :: "string list" where
  "object_prototype_keys =
     [''constructor'', ''__defineGetter__'', ''__defineSetter__'', ''hasOwnProperty'',
      ''__lookupGetter__'', ''__lookupSetter__'', ''isPrototypeOf'', ''propertyIsEnumerable'',
      ''toString'', ''valueOf'', ''__proto__'', ''toLocaleString'']"

datatype 'v slot = Own 'v | Inherited | Absent

definition obj_get :: "'v jsobject \<Rightarrow> string \<Rightarrow> 'v slot" where
  "obj_get obj k = (case map_of obj k of
       Some v \<Rightarrow> Own v
     | None \<Rightarrow> if k \<in> set object_prototype_keys then Inherited else Absent)"

text \<open>\<open>o[k] = v\<close>: an existing own property keeps its place, a new one comes last.\<close>

fun obj_set :: "'v jsobject \<Rightarrow> string \<Rightarrow> 'v \<Rightarrow> 'v jsobject" where
  "obj_set [] k v = [(k, v)]"
| "obj_set ((k', v') # kvs) k v = (if k' = k then (k, v) # kvs else (k', v') # obj_set kvs k v)"

text \<open>
  An array index is the canonical decimal text of an integer from 0 to \<open>2^32 - 2\<close>.
  \<open>Object.values\<close> lists the own properties whose key is an array index first, by ascending
  index, and then the others in the order of their creation.
\<close>

definition is_array_index :: "string \<Rightarrow> bool" where
  "is_array_index k =
     (k \<noteq> [] \<and> list_all is_digit k \<and> (k = ''0'' \<or> hd k \<noteq> CHR ''0'') \<and>
      digits_value k \<le> 4294967294)"

definition own_entries :: "'v jsobject \<Rightarrow> (string \<times> 'v) list" where
  "own_entries obj =
     sort_key (\<lambda>kv. digits_value (fst kv)) (filter (\<lambda>kv. is_array_index (fst kv)) obj)
     @ filter (\<lambda>kv. \<not> is_array_index (fst kv)) obj"

definition Object_values :: "'v jsobject \<Rightarrow> 'v list" where
  "Object_values obj = map snd (own_entries obj)"

section \<open>Search\<close>

text \<open>
  The entities of \<open>Database.series\<close> and \<open>Database.authors\<close>; \<open>payload\<close> stands for what
  \<open>toJSON()\<close> returns besides the id.
\<close>

record entity =
  id' :: string
  payload :: string

text \<open>
  What \<open>li.searchQuery(q)\<close> returns.  The method belongs to the library item and is a
  parameter of the model.  \<open>qr_series\<close> and \<open>qr_authors\<close> hold the ids of the references
  (\<open>se.id\<close>, \<open>au.id\<close>); an absent list is the empty list, both are skipped alike.
\<close>

record query_result =
  matchKey :: "string option"
  matchText :: "string option"
  qr_series :: "string list"
  qr_authors :: "string list"
  qr_tags :: "string list"
  qr_narrators :: "string list"

text \<open>
  The entries of the five collections.  A library item \<open>'li\<close> inside an entry stands for its
  projection (\<open>toJSONExpanded()\<close> in \<open>item_match\<close>, \<open>toJSON()\<close> in the lists of books).
\<close>

record 'li item_match =
  libraryItem :: 'li
  im_matchKey :: string
  im_matchText :: "string option"

record 'li series_match =
  series_json :: entity
  series_books :: "'li list"

record author_match =
  author_json :: entity
  numBooks :: nat

record 'li named_match =
  name :: string
  books :: "'li list"

record 'li matches =
  itemMatches :: "'li item_match list"
  authorMatches :: "author_match jsobject"
  narratorMatches :: "'li named_match jsobject"
  seriesMatches :: "'li series_match jsobject"
  tagMatches :: "'li named_match jsobject"

text \<open>Lines 724 to 729, for one series reference.\<close>

definition upsert_series ::
  "entity list \<Rightarrow> 'li \<Rightarrow> 'li series_match jsobject \<Rightarrow> string \<Rightarrow> error + 'li series_match jsobject" where
  "upsert_series db li m k = (case obj_get m k of
       Absent \<Rightarrow> (case find (\<lambda>e. id' e = k) db of
                    None \<Rightarrow> Inr m
                  | Some e \<Rightarrow> Inr (obj_set m k \<lparr>series_json = e, series_books = [li]\<rparr>))
     | Own sm \<Rightarrow> Inr (obj_set m k (sm\<lparr>series_books := series_books sm @ [li]\<rparr>))
     | Inherited \<Rightarrow> Inl TypeError)"

text \<open>
  Lines 734 to 742, for one author reference.  On an inherited property the increment
  lands on the built-in object and the map keeps its own properties.
\<close>

definition upsert_author :: "entity list \<Rightarrow> author_match jsobject \<Rightarrow> string \<Rightarrow> author_match jsobject" where
  "upsert_author db m k = (case obj_get m k of
       Absent \<Rightarrow> (case find (\<lambda>e. id' e = k) db of
                    None \<Rightarrow> m
                  | Some e \<Rightarrow> obj_set m k \<lparr>author_json = e, numBooks = 1\<rparr>)
     | Own am \<Rightarrow> obj_set m k (am\<lparr>numBooks := numBooks am + 1\<rparr>)
     | Inherited \<Rightarrow> m)"

text \<open>Lines 747 to 751 and 756 to 760, for one tag or one narrator.\<close>

definition upsert_named ::
  "'li \<Rightarrow> 'li named_match jsobject \<Rightarrow> string \<Rightarrow> error + 'li named_match jsobject" where
  "upsert_named li m k = (case obj_get m k of
       Absent \<Rightarrow> Inr (obj_set m k \<lparr>name = k, books = [li]\<rparr>)
     | Own nm \<Rightarrow> Inr (obj_set m k (nm\<lparr>books := books nm @ [li]\<rparr>))
     | Inherited \<Rightarrow> Inl TypeError)"

text \<open>\<open>forEach\<close> with a callback that may throw.\<close>

fun forEach :: "('s \<Rightarrow> 'a \<Rightarrow> error + 's) \<Rightarrow> 's \<Rightarrow> 'a list \<Rightarrow> error + 's" where
  "forEach f s [] = Inr s"
| "forEach f s (x # xs) = (case f s x of Inl e \<Rightarrow> Inl e | Inr s' \<Rightarrow> forEach f s' xs)"

text \<open>The callback of line 713, for one library item.\<close>

definition scan_item ::
  "entity list \<Rightarrow> entity list \<Rightarrow> ('li \<Rightarrow> string \<Rightarrow> query_result) \<Rightarrow> string \<Rightarrow>
     'li matches \<Rightarrow> 'li \<Rightarrow> error + 'li matches" where
  "scan_item db_series db_authors searchQuery q st li =
     (let queryResult = searchQuery li q;
          items = (case matchKey queryResult of
                     None \<Rightarrow> itemMatches st
                   | Some k \<Rightarrow> if k = [] then itemMatches st
                       else itemMatches st @
                         [\<lparr>libraryItem = li, im_matchKey = k, im_matchText = matchText queryResult\<rparr>])
      in case forEach (upsert_series db_series li) (seriesMatches st) (qr_series queryResult) of
           Inl e \<Rightarrow> Inl e
         | Inr se \<Rightarrow>
             (let au = foldl (upsert_author db_authors) (authorMatches st) (qr_authors queryResult)
              in case forEach (upsert_named li) (tagMatches st) (qr_tags queryResult) of
                   Inl e \<Rightarrow> Inl e
                 | Inr ta \<Rightarrow>
                     (case forEach (upsert_named li) (narratorMatches st) (qr_narrators queryResult) of
                        Inl e \<Rightarrow> Inl e
                      | Inr na \<Rightarrow>
                          Inr \<lparr>itemMatches = items, authorMatches = au, narratorMatches = na,
                               seriesMatches = se, tagMatches = ta\<rparr>)))"

definition no_matches :: "'li matches" where
  "no_matches = \<lparr>itemMatches = [], authorMatches = [], narratorMatches = [],
                 seriesMatches = [], tagMatches = []\<rparr>"

text \<open>Lines 707 to 763: the scan of the working set.\<close>

definition scan ::
  "entity list \<Rightarrow> entity list \<Rightarrow> ('li \<Rightarrow> string \<Rightarrow> query_result) \<Rightarrow> string \<Rightarrow>
     'li list \<Rightarrow> error + 'li matches" where
  "scan db_series db_authors searchQuery q libraryItems =
     forEach (scan_item db_series db_authors searchQuery q) no_matches libraryItems"

text \<open>
  The object of lines 765 to 771.  \<open>itemKey\<close> is the name of the property that holds the
  item matches, \<open>req.library.mediaType\<close>.
\<close>

record 'li results =
  itemKey :: string
  items :: "'li item_match list"
  tags :: "'li named_match list"
  authors :: "author_match list"
  series :: "'li series_match list"
  narrators :: "'li named_match list"

text \<open>
  What the handler does with the request: a status with a text, a JSON body, or an
  exception that leaves the handler.
\<close>

datatype 'li response = Status nat string | Json "'li results" | Throws error

record search_request =
  query_q :: qparam
  query_limit :: qparam
  mediaType :: string

definition maxResults :: "search_request \<Rightarrow> number" where
  "maxResults req = query_number (Fin 12) (query_limit req)"

definition truncate_matches :: "string \<Rightarrow> number \<Rightarrow> 'li matches \<Rightarrow> 'li results" where
  "truncate_matches key cap st =
     \<lparr>itemKey = key,
      items = slice (itemMatches st) (Fin 0) cap,
      tags = slice (Object_values (tagMatches st)) (Fin 0) cap,
      authors = slice (Object_values (authorMatches st)) (Fin 0) cap,
      series = slice (Object_values (seriesMatches st)) (Fin 0) cap,
      narrators = slice (Object_values (narratorMatches st)) (Fin 0) cap\<rparr>"

text \<open>Lines 700 to 773.\<close>

definition search ::
  "entity list \<Rightarrow> entity list \<Rightarrow> ('li \<Rightarrow> string \<Rightarrow> query_result) \<Rightarrow> search_request \<Rightarrow>
     'li list \<Rightarrow> 'li response" where
  "search db_series db_authors searchQuery req libraryItems =
     (if \<not> truthy_param (query_q req) then Status 400 ''No query string''
      else case scan db_series db_authors searchQuery (the (query_q req)) libraryItems of
             Inl e \<Rightarrow> Throws e
           | Inr st \<Rightarrow> Json (truncate_matches (mediaType req) (maxResults req) st))"

subsection \<open>Notions used to state the properties of the search\<close>



definition items_of :: "string \<Rightarrow> ('li \<times> string) list \<Rightarrow> 'li list" where
  "items_of k evs = map fst (filter (\<lambda>ev. snd ev = k) evs)"









text \<open>
  Two item methods for the examples: a library item that is the id of its one author, and
  a library item that is the list of its tags.
\<close>

definition by_author :: "string \<Rightarrow> string \<Rightarrow> query_result" where
  "by_author li q = \<lparr>matchKey = None, matchText = None, qr_series = [], qr_authors = [li],
                      qr_tags = [], qr_narrators = []\<rparr>"


section \<open>Listing the items of a library\<close>

subsection \<open>Pagination\<close>

text \<open>
  Lines 353 to 356, for the Numbers \<open>payload.limit\<close> and \<open>payload.page\<close>.
\<close>

definition paginate :: "number \<Rightarrow> number \<Rightarrow> 'a list \<Rightarrow> 'a list" where
  "paginate limit page libraryItems =
     (if num_truthy limit
      then (let startIndex = num_mul page limit
            in slice libraryItems startIndex (num_add startIndex limit))
      else libraryItems)"

subsection \<open>Values and property reads\<close>

text \<open>
  The values that a library item and its parts can be.  The property list of an object
  holds every property that a read can find, the inherited ones included (the getters and
  methods of its class; a method is \<open>JFun\<close>).  On an array and on a string only the indices
  and \<open>length\<close> are modelled, and nothing on a number, a boolean or a function: a read of
  another property of these gives \<open>undefined\<close> here.  No such read raises.
\<close>

datatype jsval =
    JUndefined | JNull | JBool bool | JNum number | JStr string | JFun
  | JArr "jsval list" | JObj "(string \<times> jsval) list"

definition truthy :: "jsval \<Rightarrow> bool" where
  "truthy v = (case v of
       JUndefined \<Rightarrow> False | JNull \<Rightarrow> False | JBool b \<Rightarrow> b | JNum x \<Rightarrow> num_truthy x
     | JStr s \<Rightarrow> s \<noteq> [] | JFun \<Rightarrow> True | JArr xs \<Rightarrow> True | JObj ps \<Rightarrow> True)"

definition nullish :: "jsval \<Rightarrow> bool" where
  "nullish v = (v = JUndefined \<or> v = JNull)"

text \<open>\<open>a[b]\<close>: a \<open>TypeError\<close> on \<open>undefined\<close> and \<open>null\<close>, \<open>undefined\<close> for a property that is not there.\<close>

definition get_prop :: "jsval \<Rightarrow> string \<Rightarrow> error + jsval" where
  "get_prop a b = (case a of
       JUndefined \<Rightarrow> Inl TypeError
     | JNull \<Rightarrow> Inl TypeError
     | JObj ps \<Rightarrow> Inr (case map_of ps b of Some v \<Rightarrow> v | None \<Rightarrow> JUndefined)
     | JArr xs \<Rightarrow> Inr (if b = ''length'' then JNum (Fin (of_nat (length xs)))
                       else if is_array_index b \<and> nat (digits_value b) < length xs
                       then xs ! nat (digits_value b) else JUndefined)
     | JStr s \<Rightarrow> Inr (if b = ''length'' then JNum (Fin (of_nat (length s)))
                      else if is_array_index b \<and> nat (digits_value b) < length s
                      then JStr [s ! nat (digits_value b)] else JUndefined)
     | _ \<Rightarrow> Inr JUndefined)"

definition andThen :: "error + 'a \<Rightarrow> ('a \<Rightarrow> error + 'b) \<Rightarrow> error + 'b" where
  "andThen r f = (case r of Inl e \<Rightarrow> Inl e | Inr v \<Rightarrow> f v)"

text \<open>\<open>s.split(c)\<close> for a separator of one character.\<close>

fun split_on :: "char \<Rightarrow> string \<Rightarrow> string list" where
  "split_on c [] = [[]]"
| "split_on c (x # xs) =
     (if x = c then [] # split_on c xs
      else (case split_on c xs of [] \<Rightarrow> [[x]] | w # ws \<Rightarrow> (x # w) # ws))"

text \<open>\<open>s.includes(t)\<close> for strings.\<close>

fun String_includes :: "string \<Rightarrow> string \<Rightarrow> bool" where
  "String_includes [] t = (t = [])"
| "String_includes (x # xs) t = (take (length t) (x # xs) = t \<or> String_includes xs t)"

text \<open>Line 330: \<^verbatim>\<open>sortKey.split('.').reduce((a, b) => a[b], li)\<close>.\<close>

fun reduce_props :: "jsval \<Rightarrow> string list \<Rightarrow> error + jsval" where
  "reduce_props a [] = Inr a"
| "reduce_props a (b # bs) = (case get_prop a b of Inl e \<Rightarrow> Inl e | Inr v \<Rightarrow> reduce_props v bs)"

definition resolve_path :: "jsval \<Rightarrow> string \<Rightarrow> error + jsval" where
  "resolve_path li sortKey = reduce_props li (split_on CHR ''.'' sortKey)"

subsection \<open>The sort keys\<close>

text \<open>
  What the handler takes from elsewhere: two server and library settings, the methods
  \<open>getSeries\<close> and \<open>getSeriesSortTitle\<close> of the metadata of a book (their first argument is
  the metadata object), the helpers of \<open>libraryHelpers\<close> (\<open>getFilteredLibraryItems\<close> for the
  user of the request, \<open>collapseBookSeries\<close> for the series of the database), and the sort
  of \<open>libs/fastSort\<close> with the comparer of line 10.  A sort entry is a direction and a
  function from a row to its key.
\<close>

datatype direction = Asc | Desc

type_synonym sort_entry = "direction \<times> (jsval \<Rightarrow> error + jsval)"

record library_env =
  sortingIgnorePrefix :: bool
  hideSingleBookSeries :: bool
  getSeries :: "jsval \<Rightarrow> string \<Rightarrow> jsval"
  getSeriesSortTitle :: "jsval \<Rightarrow> jsval \<Rightarrow> jsval"
  getFilteredLibraryItems :: "jsval list \<Rightarrow> string \<Rightarrow> jsval list"
  decode :: "string \<Rightarrow> string"
  collapseBookSeries :: "jsval list \<Rightarrow> string option \<Rightarrow> bool \<Rightarrow> jsval list"
  naturalSort_by :: "sort_entry list \<Rightarrow> jsval list \<Rightarrow> error + jsval list"

text \<open>\<open>li.media.metadata\<close>.\<close>

definition metadata_of :: "jsval \<Rightarrow> error + jsval" where
  "metadata_of li = andThen (get_prop li ''media'') (\<lambda>media. get_prop media ''metadata'')"

text \<open>
  A call \<open>obj.m(...)\<close> whose result \<open>r\<close> comes from the environment: \<open>obj.m\<close> has to be a
  function.
\<close>

definition call_method :: "jsval \<Rightarrow> string \<Rightarrow> jsval \<Rightarrow> error + jsval" where
  "call_method obj m r = andThen (get_prop obj m) (\<lambda>f. if f = JFun then Inr r else Inl TypeError)"

text \<open>Lines 278 and 323: \<^verbatim>\<open>li.media.metadata.getSeries(filterSeries).sequence\<close>.\<close>

definition sequence_key :: "library_env \<Rightarrow> string \<Rightarrow> jsval \<Rightarrow> error + jsval" where
  "sequence_key env filterSeries li =
     andThen (metadata_of li) (\<lambda>md.
     andThen (call_method md ''getSeries'' (getSeries env md filterSeries)) (\<lambda>se.
     get_prop se ''sequence''))"

text \<open>Lines 281 to 287.\<close>

definition title_fallback_key :: "library_env \<Rightarrow> jsval \<Rightarrow> error + jsval" where
  "title_fallback_key env li =
     (let suffix = (if sortingIgnorePrefix env then ''IgnorePrefix'' else '''') in
      andThen (get_prop li ''collapsedSeries'') (\<lambda>cs.
      andThen (if nullish cs then Inr JUndefined else get_prop cs (''name'' @ suffix)) (\<lambda>v.
      if truthy v then Inr v
      else andThen (metadata_of li) (\<lambda>md. get_prop md (''title'' @ suffix)))))"

text \<open>Lines 306 to 314.\<close>

definition collapsed_last_key :: "library_env \<Rightarrow> jsval \<Rightarrow> error + jsval" where
  "collapsed_last_key env li =
     andThen (get_prop li ''collapsedSeries'') (\<lambda>cs.
     if truthy cs
     then get_prop cs (if sortingIgnorePrefix env then ''nameIgnorePrefix'' else ''name'')
     else Inr (JStr ''''))"

text \<open>Lines 321 to 332.\<close>

definition primary_key ::
  "library_env \<Rightarrow> bool \<Rightarrow> bool \<Rightarrow> bool \<Rightarrow> string \<Rightarrow> string \<Rightarrow> jsval \<Rightarrow> error + jsval" where
  "primary_key env mediaIsBook sortBySequence sortByTitle filterSeries sortKey li =
     (if mediaIsBook \<and> sortBySequence then sequence_key env filterSeries li
      else if mediaIsBook \<and> sortByTitle then
        andThen (get_prop li ''collapsedSeries'') (\<lambda>cs.
        if truthy cs
        then get_prop cs (if sortingIgnorePrefix env then ''nameIgnorePrefix'' else ''name'')
        else resolve_path li sortKey)
      else resolve_path li sortKey)"

text \<open>Lines 338 to 343.\<close>

definition author_series_key :: "library_env \<Rightarrow> jsval \<Rightarrow> error + jsval" where
  "author_series_key env li =
     andThen (metadata_of li) (\<lambda>md.
     andThen (get_prop md ''series'') (\<lambda>series.
     if \<not> truthy series then Inr JNull
     else andThen (get_prop series ''length'') (\<lambda>len.
       if \<not> truthy len then Inr JNull
       else andThen (get_prop series ''0'') (\<lambda>first.
         call_method md ''getSeriesSortTitle'' (getSeriesSortTitle env md first)))))"

text \<open>
  Lines 274 to 346: the sort array, from the series of the filter (\<open>null\<close> is \<open>None\<close>), the
  parameter \<open>sort\<close>, \<open>payload.sortDesc\<close> and \<open>payload.collapseseries\<close>.
\<close>

definition build_sortArray ::
  "library_env \<Rightarrow> bool \<Rightarrow> string option \<Rightarrow> qparam \<Rightarrow> bool \<Rightarrow> bool \<Rightarrow> sort_entry list" where
  "build_sortArray env mediaIsBook filterSeries sortBy sortDesc collapseseries =
     (let series_page = (truthy_param filterSeries \<and> \<not> truthy_param sortBy);
          on_series = (if series_page
                       then [(Asc, sequence_key env (the filterSeries)), (Asc, title_fallback_key env)]
                       else [])
      in if \<not> truthy_param sortBy then on_series
         else
           (let sortByTitle = (the sortBy = ''media.metadata.title'');
                sortKey = (if sortByTitle \<and> sortingIgnorePrefix env
                           then the sortBy @ ''IgnorePrefix'' else the sortBy);
                sortBySequence = (truthy_param filterSeries \<and> sortKey = ''sequence'');
                collapsed_last = (if collapseseries \<and> \<not> (sortByTitle \<or> sortBySequence)
                                  then [(Asc, collapsed_last_key env)] else []);
                primary = [(if sortDesc then Desc else Asc,
                            primary_key env mediaIsBook sortBySequence sortByTitle
                              (case filterSeries of None \<Rightarrow> [] | Some s \<Rightarrow> s) sortKey)];
                secondary = (if mediaIsBook \<and> String_includes (the sortBy) ''author''
                             then [(Asc, author_series_key env)] else [])
            in on_series @ collapsed_last @ primary @ secondary))"

subsection \<open>The handler, up to the rows of the page\<close>

record listing_request =
  q_limit :: qparam
  q_page :: qparam
  q_sort :: qparam
  q_desc :: qparam
  q_filter :: qparam
  q_minified :: qparam
  q_collapseseries :: qparam
  library_mediaType :: string

text \<open>
  The payload of lines 224 to 236, without \<open>include\<close>.  \<open>results\<close> holds the rows of the page,
  which step 4 then projects one by one.
\<close>

record payload =
  results :: "jsval list"
  total :: nat
  limit :: number
  page :: number
  sortBy :: qparam
  sortDesc :: bool
  filterBy :: qparam
  mediaType' :: string
  minified :: bool
  collapseseries :: bool

text \<open>Step 1, lines 241 to 249: the filtered items, their number, and the series of the filter.\<close>

definition filter_step ::
  "library_env \<Rightarrow> listing_request \<Rightarrow> jsval list \<Rightarrow> jsval list \<times> nat \<times> string option" where
  "filter_step env req libraryItems =
     (if truthy_param (q_filter req)
      then (let filterBy = the (q_filter req);
                filtered = getFilteredLibraryItems env libraryItems filterBy;
                filterSeries = (if library_mediaType req = ''book'' \<and> take 7 filterBy = ''series.''
                                then Some (decode env (drop 7 filterBy)) else None)
            in (filtered, length filtered,
                if filterSeries = Some ''no-series'' then None else filterSeries))
      else (libraryItems, length libraryItems, None))"

text \<open>Step 2, lines 254 to 271.\<close>

definition collapse_step ::
  "library_env \<Rightarrow> bool \<Rightarrow> string option \<Rightarrow> jsval list \<times> nat \<Rightarrow> error + jsval list \<times> nat" where
  "collapse_step env collapse filterSeries working =
     (if collapse
      then (let collapsedItems =
                  collapseBookSeries env (fst working) filterSeries (hideSingleBookSeries env)
            in case collapsedItems of
                 [row] \<Rightarrow> andThen (get_prop row ''collapsedSeries'') (\<lambda>cs.
                            if truthy cs then Inr working
                            else Inr (collapsedItems, length collapsedItems))
               | _ \<Rightarrow> Inr (collapsedItems, length collapsedItems))
      else Inr working)"

text \<open>Step 3, lines 274 to 350.\<close>

definition sort_step ::
  "library_env \<Rightarrow> listing_request \<Rightarrow> string option \<Rightarrow> jsval list \<Rightarrow> error + jsval list" where
  "sort_step env req filterSeries rows =
     (let sortArray = build_sortArray env (library_mediaType req = ''book'') filterSeries
                        (q_sort req) (q_desc req = Some ''1'') (q_collapseseries req = Some ''1'')
      in if sortArray \<noteq> [] then naturalSort_by env sortArray rows else Inr rows)"

text \<open>The payload of lines 224 to 236 with the total of steps 1 and 2 and the page of step 3.5.\<close>

definition make_payload :: "listing_request \<Rightarrow> nat \<Rightarrow> jsval list \<Rightarrow> payload" where
  "make_payload req total' ordered =
     (let limit' = query_number (Fin 0) (q_limit req);
          page' = query_number (Fin 0) (q_page req)
      in \<lparr>results = paginate limit' page' ordered, total = total', limit = limit', page = page',
          sortBy = q_sort req, sortDesc = (q_desc req = Some ''1''), filterBy = q_filter req,
          mediaType' = library_mediaType req, minified = (q_minified req = Some ''1''),
          collapseseries = (q_collapseseries req = Some ''1'')\<rparr>)"

text \<open>Lines 219 to 356.\<close>

definition getLibraryItems :: "library_env \<Rightarrow> listing_request \<Rightarrow> jsval list \<Rightarrow> error + payload" where
  "getLibraryItems env req libraryItems =
     (case filter_step env req libraryItems of (filtered, total1, filterSeries) \<Rightarrow>
        andThen (collapse_step env (q_collapseseries req = Some ''1'') filterSeries (filtered, total1))
          (\<lambda>working.
        andThen (sort_step env req filterSeries (fst working)) (\<lambda>ordered.
        Inr (make_payload req (snd working) ordered))))"

text \<open>
  An environment for the examples: no filter, a collapse into one row that stands for a
  series, no sort.
\<close>

definition example_env :: library_env where
  "example_env =
     \<lparr>sortingIgnorePrefix = False, hideSingleBookSeries = False,
      getSeries = (\<lambda>md k. JUndefined), getSeriesSortTitle = (\<lambda>md se. JUndefined),
      getFilteredLibraryItems = (\<lambda>lis f. lis), decode = (\<lambda>s. s),
      collapseBookSeries =
        (\<lambda>lis fs hide. [JObj [(''collapsedSeries'', JObj [(''name'', JStr ''Dune'')])]]),
      naturalSort_by = (\<lambda>sortArray rows. Inr rows)\<rparr>"

definition example_request :: listing_request where
  "example_request =
     \<lparr>q_limit = None, q_page = None, q_sort = None, q_desc = None, q_filter = None,
      q_minified = None, q_collapseseries = Some ''1'', library_mediaType = ''book''\<rparr>"

definition example_books :: "jsval list" where
  "example_books =
     [JObj [(''id'', JStr ''li_1'')], JObj [(''id'', JStr ''li_2'')]]"

section \<open>The sort\<close>

text \<open>
  Modelled from the spec: the sort of \<open>libs/fastSort\<close> and its comparer, the \<open>Intl.Collator\<close>
  of line 10, neither under \<open>src/\<close>.  The spec: the entries are applied "as a lexicographic
  composite order (first non-equal comparator wins; ties fall through to the next)";
  "missing/undefined resolved values rank as empty string"; the result is "a stable sort
  application".  The natural comparator is taken as the order of the collation keys
  \<open>ckey\<close> of the values.  A key function is called when a comparison needs its key, first
  for the left row, and what it raises leaves the sort.
\<close>

datatype order3 = Before | Same | After

definition sort_rank :: "jsval \<Rightarrow> jsval" where
  "sort_rank v = (if nullish v then JStr '''' else v)"

definition natural_compare :: "(jsval \<Rightarrow> 'k::linorder) \<Rightarrow> jsval \<Rightarrow> jsval \<Rightarrow> order3" where
  "natural_compare ckey a b =
     (let x = ckey (sort_rank a); y = ckey (sort_rank b)
      in if x < y then Before else if x = y then Same else After)"

definition directed :: "direction \<Rightarrow> order3 \<Rightarrow> order3" where
  "directed d r = (case d of
       Asc \<Rightarrow> r
     | Desc \<Rightarrow> (case r of Before \<Rightarrow> After | Same \<Rightarrow> Same | After \<Rightarrow> Before))"

fun compare_by :: "(jsval \<Rightarrow> 'k::linorder) \<Rightarrow> sort_entry list \<Rightarrow> jsval \<Rightarrow> jsval \<Rightarrow> error + order3" where
  "compare_by ckey [] a b = Inr Same"
| "compare_by ckey (entry # rest) a b =
     (case snd entry a of
        Inl e \<Rightarrow> Inl e
      | Inr va \<Rightarrow>
          (case snd entry b of
             Inl e \<Rightarrow> Inl e
           | Inr vb \<Rightarrow>
               (case directed (fst entry) (natural_compare ckey va vb) of
                  Same \<Rightarrow> compare_by ckey rest a b
                | Before \<Rightarrow> Inr Before
                | After \<Rightarrow> Inr After)))"

fun insert_by :: "('a \<Rightarrow> 'a \<Rightarrow> error + order3) \<Rightarrow> 'a \<Rightarrow> 'a list \<Rightarrow> error + 'a list" where
  "insert_by c x [] = Inr [x]"
| "insert_by c x (y # ys) =
     (case c x y of
        Inl e \<Rightarrow> Inl e
      | Inr After \<Rightarrow> (case insert_by c x ys of Inl e \<Rightarrow> Inl e | Inr zs \<Rightarrow> Inr (y # zs))
      | Inr Before \<Rightarrow> Inr (x # y # ys)
      | Inr Same \<Rightarrow> Inr (x # y # ys))"

fun sort_with :: "('a \<Rightarrow> 'a \<Rightarrow> error + order3) \<Rightarrow> 'a list \<Rightarrow> error + 'a list" where
  "sort_with c [] = Inr []"
| "sort_with c (x # xs) =
     (case sort_with c xs of Inl e \<Rightarrow> Inl e | Inr ys \<Rightarrow> insert_by c x ys)"

definition fastSort_by ::
  "(jsval \<Rightarrow> 'k::linorder) \<Rightarrow> sort_entry list \<Rightarrow> jsval list \<Rightarrow> error + jsval list" where
  "fastSort_by ckey sortArray rows = sort_with (compare_by ckey sortArray) rows"

text \<open>The rows on which no key function of the sort array raises.\<close>

definition keys_defined :: "sort_entry list \<Rightarrow> jsval \<Rightarrow> bool" where
  "keys_defined sortArray row =
     list_all (\<lambda>entry. case snd entry row of Inl e \<Rightarrow> False | Inr v \<Rightarrow> True) sortArray"


definition keys_same :: "(jsval \<Rightarrow> 'k::linorder) \<Rightarrow> sort_entry list \<Rightarrow> jsval \<Rightarrow> jsval \<Rightarrow> bool" where
  "keys_same ckey sortArray a b =
     list_all (\<lambda>entry. \<exists>va vb. snd entry a = Inr va \<and> snd entry b = Inr vb \<and>
                 ckey (sort_rank va) = ckey (sort_rank vb)) sortArray"


text \<open>
  For the examples: a comparator that orders strings by their length, books with the
  method \<open>getSeriesSortTitle\<close>, which here returns the name of the series, and rows with
  one key.
\<close>

definition example_ckey :: "jsval \<Rightarrow> nat" where
  "example_ckey v = (case v of JStr s \<Rightarrow> length s | _ \<Rightarrow> 0)"



definition example_row :: "string \<Rightarrow> string \<Rightarrow> jsval" where
  "example_row ident key = JObj [(''id'', JStr ident), (''key'', JStr key)]"

definition example_rows :: "jsval list" where
  "example_rows = [example_row ''1'' ''bb'', example_row ''2'' ''a'', example_row ''3'' ''cc'']"

text \<open>An environment whose sort is the modelled one, and a request that sorts by \<open>key\<close>.\<close>

definition example_sorting_env :: library_env where
  "example_sorting_env = example_env\<lparr>naturalSort_by := fastSort_by example_ckey\<rparr>"

definition example_sort_request :: listing_request where
  "example_sort_request = example_request\<lparr>q_sort := Some ''key'', q_collapseseries := None\<rparr>"

section \<open>The matcher accepts the language of the expression\<close>

lemma nullable_lang: "nullable r \<longleftrightarrow> [] \<in> lang r"
  by (induction r) (auto simp: conc_def intro: star.star_nil)

lemma conc_tail: "{w. c # w \<in> conc A B} =
    conc {w. c # w \<in> A} B \<union> (if [] \<in> A then {w. c # w \<in> B} else {})"
  by (auto simp: conc_def Cons_eq_append_conv append_eq_Cons_conv)

lemma star_tail_sub:
  assumes "x \<in> star A" and "x = c # w"
  shows "w \<in> conc {w. c # w \<in> A} (star A)"
  using assms
proof (induction arbitrary: w rule: star.induct)
  case star_nil
  then show ?case by simp
next
  case (star_app u v)
  show ?case
  proof (cases u)
    case Nil
    with star_app show ?thesis by simp
  next
    case (Cons a u')
    with star_app.prems have "a = c" and "w = u' @ v" by simp_all
    with Cons star_app.hyps show ?thesis by (auto simp: conc_def)
  qed
qed

lemma star_tail: "{w. c # w \<in> star A} = conc {w. c # w \<in> A} (star A)"
proof
  show "{w. c # w \<in> star A} \<subseteq> conc {w. c # w \<in> A} (star A)"
    using star_tail_sub by blast
next
  show "conc {w. c # w \<in> A} (star A) \<subseteq> {w. c # w \<in> star A}"
  proof
    fix w assume "w \<in> conc {w. c # w \<in> A} (star A)"
    then obtain u v where "w = u @ v" "c # u \<in> A" "v \<in> star A"
      by (auto simp: conc_def)
    then have "(c # u) @ v \<in> star A" by (intro star.star_app)
    with \<open>w = u @ v\<close> show "w \<in> {w. c # w \<in> star A}" by simp
  qed
qed

lemma lang_deriv: "lang (deriv c r) = {w. c # w \<in> lang r}"
proof (induction r)
  case (Seq r s)
  then show ?case by (simp add: conc_tail nullable_lang)
next
  case (Star r)
  then show ?case by (simp add: star_tail)
qed auto

lemma regexp_test_lang: "regexp_test r s \<longleftrightarrow> s \<in> lang r"
  by (induction s arbitrary: r) (simp_all add: nullable_lang lang_deriv)

lemma star_digits: "star (lang Digit) = {w. list_all is_digit w}"
proof
  show "star (lang Digit) \<subseteq> {w. list_all is_digit w}"
  proof
    fix w assume "w \<in> star (lang Digit)"
    then show "w \<in> {w. list_all is_digit w}"
      by (induction rule: star.induct) auto
  qed
next
  show "{w. list_all is_digit w} \<subseteq> star (lang Digit)"
  proof
    fix w assume "w \<in> {w. list_all is_digit w}"
    then have "list_all is_digit w" by simp
    then show "w \<in> star (lang Digit)"
    proof (induction w)
      case Nil
      show ?case by (rule star.star_nil)
    next
      case (Cons c w)
      then have "[c] \<in> lang Digit" and "w \<in> star (lang Digit)" by simp_all
      then have "[c] @ w \<in> star (lang Digit)" by (rule star.star_app)
      then show ?case by simp
    qed
  qed
qed

lemma lang_star_digit: "lang (Star Digit) = {w. list_all is_digit w}"
  using star_digits by simp

lemma lang_plus_digit: "lang (Plus Digit) = {w. w \<noteq> [] \<and> list_all is_digit w}"
proof -
  have "conc (lang Digit) {w. list_all is_digit w} = {w. w \<noteq> [] \<and> list_all is_digit w}"
  proof
    show "conc (lang Digit) {w. list_all is_digit w} \<subseteq> {w. w \<noteq> [] \<and> list_all is_digit w}"
      by (auto simp: conc_def)
  next
    show "{w. w \<noteq> [] \<and> list_all is_digit w} \<subseteq> conc (lang Digit) {w. list_all is_digit w}"
    proof
      fix w assume "w \<in> {w. w \<noteq> [] \<and> list_all is_digit w}"
      then obtain c w' where w: "w = c # w'" "is_digit c" "list_all is_digit w'"
        by (cases w) auto
      then have "w = [c] @ w'" "[c] \<in> lang Digit" by simp_all
      with w(3) show "w \<in> conc (lang Digit) {w. list_all is_digit w}"
        unfolding conc_def by blast
    qed
  qed
  then show ?thesis
    unfolding Plus_def using star_digits by simp
qed

lemma lang_sequence_pattern: "lang sequence_pattern = {s. decimal_shape s}"
proof -
  let ?D = "{w. list_all is_digit w}"
  let ?P = "{w. w \<noteq> [] \<and> list_all is_digit w}"
  have "lang sequence_pattern = ?P \<union> (conc ?P (conc {''.''} ?D) \<union> conc ?D (conc {''.''} ?P))"
    unfolding sequence_pattern_def lang.simps(5,6) lang_plus_digit lang_star_digit
    by simp
  also have "\<dots> = {s. decimal_shape s}"
  proof -
    have a: "conc ?P (conc {''.''} ?D) =
        {ds @ ''.'' @ fs | ds fs. ds \<noteq> [] \<and> list_all is_digit ds \<and> list_all is_digit fs}"
      unfolding conc_def by blast
    have b: "conc ?D (conc {''.''} ?P) =
        {ds @ ''.'' @ fs | ds fs. fs \<noteq> [] \<and> list_all is_digit ds \<and> list_all is_digit fs}"
      unfolding conc_def by blast
    show ?thesis
      unfolding a b decimal_shape_def by blast
  qed
  finally show ?thesis .
qed

lemma sequence_pattern_iff: "regexp_test sequence_pattern s \<longleftrightarrow> decimal_shape s"
  by (simp add: regexp_test_lang lang_sequence_pattern)

section \<open>Properties of the sequence range compaction\<close>

lemma fl_not_NaN: "fl q \<noteq> NaN"
  by (simp add: fl_def Let_def)

lemma not_digit_point: "\<not> is_digit CHR ''.''"
  by (simp add: is_digit_def)

lemma parseFloat_shape:
  assumes "decimal_shape s"
  shows "parseFloat s \<noteq> NaN"
proof -
  from assms consider
      (int) "s \<noteq> []" "list_all is_digit s"
    | (frac) ds fs where "s = ds @ ''.'' @ fs" "list_all is_digit ds" "list_all is_digit fs"
        "ds \<noteq> [] \<or> fs \<noteq> []"
    unfolding decimal_shape_def by blast
  then show ?thesis
  proof cases
    case int
    then have tw: "takeWhile is_digit s = s"
      by (simp add: list_all_iff)
    show ?thesis
      unfolding parseFloat_def Let_def tw using int(1) by (simp add: fl_not_NaN)
  next
    case frac
    have ds: "takeWhile is_digit s = ds"
      using frac(1,2) by (simp add: list_all_iff takeWhile_append2 not_digit_point)
    have rest: "dropWhile is_digit s = CHR ''.'' # fs"
      using frac(1,2) by (simp add: list_all_iff dropWhile_append2 not_digit_point)
    have fs: "takeWhile is_digit fs = fs"
      using frac(3) by (simp add: list_all_iff)
    show ?thesis
      using frac(4) by (simp add: parseFloat_def Let_def ds rest fs fl_not_NaN)
  qed
qed

lemma current_of_cases:
  "(is_numeric t \<and> (\<exists>x. current_of t = Num x \<and> x \<noteq> NaN)) \<or> (\<not> is_numeric t \<and> current_of t = Str t)"
  using parseFloat_shape [of t]
  by (auto simp: current_of_def is_numeric_def sequence_pattern_iff)

lemma wf_new_range: "wf_range (new_range t)"
  using current_of_cases [of t] by (auto simp: wf_range_def new_range_def)

lemma reducer_step:
  assumes "wf_range (last rs)" and "rs \<noteq> []"
  shows "reducer rs t = Some
     (if is_numeric t \<and> isNumber (last rs) \<and> plus_one (end' (last rs)) = current_of t
      then butlast rs @ [(last rs)\<lparr>end' := current_of t\<rparr>]
      else rs @ [new_range t])"
proof (cases "is_numeric t \<and> isNumber (last rs)")
  case False
  then show ?thesis
    using assms(2)
    by (auto simp: reducer_def Let_def new_range_def current_of_def is_numeric_def)
next
  case True
  then obtain x where x: "current_of t = Num x" "x \<noteq> NaN"
    using current_of_cases [of t] by auto
  from True assms(1) obtain a b where ab: "start (last rs) = Num a" "end' (last rs) = Num b"
    by (auto simp: wf_range_def split: seqval.splits)
  have eq: "loose_eq (plus_one (end' (last rs))) (current_of t)
      = Some (plus_one (end' (last rs)) = current_of t)"
    using x ab by (auto simp: num_eq_def)
  have cur: "(if regexp_test sequence_pattern t then Num (parseFloat t) else Str t) = current_of t"
    by (simp add: current_of_def is_numeric_def)
  have isn: "regexp_test sequence_pattern t" "isNumber (last rs)"
    using True by (simp_all add: is_numeric_def)
  show ?thesis
    unfolding reducer_def Let_def cur
    using assms(2) True isn eq by (simp add: new_range_def is_numeric_def)
qed

lemma reducer_empty: "reducer [] t = Some [new_range t]"
  by (simp add: reducer_def Let_def new_range_def current_of_def is_numeric_def)

lemma reducer_total:
  assumes "ranges_ok rs"
  shows "\<exists>rs'. reducer rs t = Some rs' \<and> ranges_ok rs' \<and> rs' \<noteq> [] \<and>
           end' (last rs') = current_of t \<and> isNumber (last rs') = is_numeric t"
proof (cases "rs = []")
  case True
  then show ?thesis
    using wf_new_range [of t] by (simp add: reducer_empty ranges_ok_def new_range_def)
next
  case False
  then have wl: "wf_range (last rs)"
    using assms by (simp add: ranges_ok_def list_all_iff)
  have wb: "list_all wf_range (butlast rs)"
    using assms by (auto simp: ranges_ok_def list_all_iff dest: in_set_butlastD)
  show ?thesis
  proof (cases "is_numeric t \<and> isNumber (last rs) \<and> plus_one (end' (last rs)) = current_of t")
    case True
    then obtain x where x: "current_of t = Num x" "x \<noteq> NaN"
      using current_of_cases [of t] by auto
    have "wf_range ((last rs)\<lparr>end' := current_of t\<rparr>)"
      using wl True x by (auto simp: wf_range_def split: seqval.splits)
    then show ?thesis
      using True wb by (simp add: reducer_step [OF wl False] ranges_ok_def)
  next
    case no: False
    have "reducer rs t = Some (rs @ [new_range t])"
      using no reducer_step [OF wl False, of t] by auto
    then show ?thesis
      using assms wf_new_range [of t] by (simp add: ranges_ok_def new_range_def)
  qed
qed

lemma reduce_ranges_append:
  "reduce_ranges rs (xs @ ys) =
     (case reduce_ranges rs xs of None \<Rightarrow> None | Some rs' \<Rightarrow> reduce_ranges rs' ys)"
  by (induction xs arbitrary: rs) (auto split: option.splits)

lemma reduce_ranges_total:
  assumes "ranges_ok rs"
  shows "\<exists>rs'. reduce_ranges rs ts = Some rs' \<and> ranges_ok rs'"
  using assms
proof (induction ts arbitrary: rs)
  case Nil
  then show ?case by simp
next
  case (Cons t ts)
  from reducer_total [OF Cons.prems, of t] obtain r1 where "reducer rs t = Some r1" "ranges_ok r1"
    by blast
  with Cons.IH [of r1] show ?case by simp
qed

lemma reduce_ranges_snoc:
  assumes "ranges_ok rs"
  shows "\<exists>rs'. reduce_ranges rs (ts @ [p]) = Some rs' \<and> ranges_ok rs' \<and> rs' \<noteq> [] \<and>
           end' (last rs') = current_of p \<and> isNumber (last rs') = is_numeric p"
proof -
  from reduce_ranges_total [OF assms, of ts] obtain r1 where
    r1: "reduce_ranges rs ts = Some r1" "ranges_ok r1" by blast
  from reducer_total [OF r1(2), of p] show ?thesis
    by (auto simp: reduce_ranges_append r1(1))
qed

lemma current_of_plus_one:
  "is_numeric p \<Longrightarrow> is_numeric c \<Longrightarrow>
     plus_one (current_of p) = current_of c \<longleftrightarrow> num_add (parseFloat p) (Fin 1) = parseFloat c"
  by (simp add: current_of_def)

text \<open>
  Claim C1, as amended.  After any tokens \<open>ts\<close> and a token \<open>p\<close>, the next token \<open>c\<close> extends
  the open range (its end becomes the value of \<open>c\<close>, no range is added) exactly when \<open>c\<close> is
  numeric, the preceding token \<open>p\<close> is numeric and the value of \<open>c\<close> equals the value of \<open>p\<close>
  plus 1 in double arithmetic; otherwise a new range seeded by \<open>c\<close> is appended.  The values
  need not be integers: the test is \<open>end + 1 == current\<close> and nothing else.
\<close>

theorem range_extended_iff:
  "\<exists>rs. reduce_ranges [] (ts @ [p]) = Some rs \<and> rs \<noteq> [] \<and>
     reduce_ranges [] (ts @ [p, c]) = Some
       (if is_numeric c \<and> is_numeric p \<and> num_add (parseFloat p) (Fin 1) = parseFloat c
        then butlast rs @ [(last rs)\<lparr>end' := Num (parseFloat c)\<rparr>]
        else rs @ [new_range c])"
proof -
  have ok: "ranges_ok []" by (simp add: ranges_ok_def)
  from reduce_ranges_snoc [OF ok, of ts p] obtain rs where
    rs: "reduce_ranges [] (ts @ [p]) = Some rs" "ranges_ok rs" "rs \<noteq> []"
      "end' (last rs) = current_of p" "isNumber (last rs) = is_numeric p"
    by blast
  have wl: "wf_range (last rs)"
    using rs(2,3) by (simp add: ranges_ok_def list_all_iff)
  have split: "ts @ [p, c] = (ts @ [p]) @ [c]" by simp
  have "reduce_ranges [] ((ts @ [p]) @ [c]) =
      (case reduce_ranges [] (ts @ [p]) of None \<Rightarrow> None | Some rs' \<Rightarrow> reduce_ranges rs' [c])"
    by (rule reduce_ranges_append)
  then have step: "reduce_ranges [] (ts @ [p, c]) = reducer rs c"
    by (simp add: rs(1) split: option.splits)
  have cond: "(is_numeric c \<and> isNumber (last rs) \<and> plus_one (end' (last rs)) = current_of c)
      \<longleftrightarrow> (is_numeric c \<and> is_numeric p \<and> num_add (parseFloat p) (Fin 1) = parseFloat c)"
    using current_of_plus_one [of p c] by (auto simp: rs(4,5))
  have cur: "is_numeric c \<Longrightarrow> current_of c = Num (parseFloat c)"
    by (simp add: current_of_def)
  show ?thesis
    using rs(1,3) cur unfolding step reducer_step [OF wl rs(3)] cond
    by (intro exI [of _ rs]) auto
qed

lemma render_range_wf:
  assumes "wf_range r"
  shows "\<exists>v. render_range r = Some v \<and> ToString v = range_text r"
proof (cases "start r")
  case (Str s)
  with assms show ?thesis
    by (auto simp: wf_range_def render_range_def range_text_def split: seqval.splits)
next
  case (Num x)
  with assms obtain y where "end' r = Num y" "x \<noteq> NaN"
    by (auto simp: wf_range_def split: seqval.splits)
  with Num show ?thesis
    by (auto simp: render_range_def range_text_def num_eq_def)
qed

lemma render_all_ok:
  assumes "ranges_ok rs"
  shows "\<exists>vs. render_all rs = Some vs \<and> map ToString vs = map range_text rs"
  using assms
proof (induction rs)
  case Nil
  then show ?case by simp
next
  case (Cons r rs)
  then have "wf_range r" "ranges_ok rs" by (simp_all add: ranges_ok_def)
  with Cons.IH render_range_wf [of r] show ?case by auto
qed

lemma seriesSequenceList_ranges:
  "\<exists>rs. reduce_ranges [] ts = Some rs \<and>
     seriesSequenceList ts = Some (join '', '' (map range_text rs))"
proof -
  have "ranges_ok []" by (simp add: ranges_ok_def)
  from reduce_ranges_total [OF this, of ts] obtain rs where
    rs: "reduce_ranges [] ts = Some rs" "ranges_ok rs" by blast
  from render_all_ok [OF rs(2)] obtain vs where
    "render_all rs = Some vs" "map ToString vs = map range_text rs" by blast
  with rs(1) show ?thesis by (simp add: seriesSequenceList_def)
qed

lemma example_compaction:
  "seriesSequenceList [''1'', ''2'', ''3'', ''5'', ''7'', ''8''] = Some ''1-3, 5, 7-8''"
  by code_simp

lemma example_fraction: "seriesSequenceList [''1'', ''1.5'', ''2''] = Some ''1, 1.5, 2''"
  by code_simp

lemma example_non_numeric: "seriesSequenceList [''3a''] = Some ''3a''"
  by code_simp

lemma example_accepted: "list_all is_numeric [''3'', ''3.5'', ''.5'', ''3.'']"
  by code_simp

lemma example_half: "reduce_ranges [] [''0.5'', ''1.5''] =
    Some [\<lparr>start = Num (Fin (1 / 2)), end' = Num (Fin (3 / 2)), isNumber = True\<rparr>]"
  by code_simp

lemma example_half_text: "seriesSequenceList [''0.5'', ''1.5''] = Some ''0.5-1.5''"
  by code_simp

lemma example_half_parse: "is_numeric ''1.5'' \<and> parseFloat ''1.5'' = Fin (3 / 2)"
  by code_simp

text \<open>
  Claim C2.  A token is numeric exactly when it is one or more digits, or digits with one
  decimal point and a digit before or after it (\<open>"3"\<close>, \<open>"3.5"\<close>, \<open>".5"\<close>, \<open>"3."\<close> are); the
  result is the texts of the ranges joined by \<open>", "\<close>, each range being its start alone when
  start equals end and \<open>start-end\<close> otherwise; no token gives the empty string; the two
  examples of the claim evaluate as stated.
\<close>

theorem sequence_list_rendering:
  "(is_numeric s \<longleftrightarrow> decimal_shape s) \<and>
   (\<exists>rs. reduce_ranges [] ts = Some rs \<and>
      seriesSequenceList ts = Some (join '', '' (map range_text rs))) \<and>
   seriesSequenceList [] = Some '''' \<and>
   list_all is_numeric [''3'', ''3.5'', ''.5'', ''3.''] \<and>
   seriesSequenceList [''1'', ''2'', ''3'', ''5'', ''7'', ''8''] = Some ''1-3, 5, 7-8'' \<and>
   seriesSequenceList [''3a''] = Some ''3a''"
  using seriesSequenceList_ranges [of ts] example_compaction example_non_numeric example_accepted
  by (simp add: is_numeric_def sequence_pattern_iff seriesSequenceList_def)

theorem sequence_list_rendering_witness:
  "decimal_shape ''3.5'' \<and> seriesSequenceList [''1'', ''1.5'', ''2''] = Some ''1, 1.5, 2''"
proof -
  have "is_numeric ''3.5''" by code_simp
  then show ?thesis
    using sequence_list_rendering [of "''3.5''" "[''1'', ''1.5'', ''2'']"] example_fraction
    by simp
qed

theorem range_extended_iff_witness:
  "\<exists>rs. reduce_ranges [] [''0.5''] = Some rs \<and>
     reduce_ranges [] [''0.5'', ''1.5''] = Some (butlast rs @ [(last rs)\<lparr>end' := Num (Fin (3 / 2))\<rparr>])"
proof -
  have c: "is_numeric ''1.5''" "is_numeric ''0.5''"
    "num_add (parseFloat ''0.5'') (Fin 1) = parseFloat ''1.5''" "parseFloat ''1.5'' = Fin (3 / 2)"
    by code_simp+
  show ?thesis
    using range_extended_iff [of "[]" "''0.5''" "''1.5''"] c by auto
qed

text \<open>
  Claim C1 as stated fails: a fractional token extends a range.  After \<open>"0.5"\<close> the token
  \<open>"1.5"\<close>, whose value is 3/2, finds \<open>0.5 + 1 == 1.5\<close> true and becomes the end of the range
  opened by \<open>"0.5"\<close>; the list is rendered \<open>0.5-1.5\<close>.
\<close>

theorem fractional_token_extends_range:
  "is_numeric ''1.5'' \<and> parseFloat ''1.5'' = Fin (3 / 2) \<and>
   reduce_ranges [] [''0.5'', ''1.5''] =
     Some [\<lparr>start = Num (Fin (1 / 2)), end' = Num (Fin (3 / 2)), isNumber = True\<rparr>] \<and>
   seriesSequenceList [''0.5'', ''1.5''] = Some ''0.5-1.5''"
  using example_half example_half_text example_half_parse by simp

section \<open>Properties of the search\<close>










lemma items_of_Nil: "items_of k [] = []"
  by (simp add: items_of_def)




































text \<open>
  Claim C5.  The search answers with status 400 exactly when \<open>q\<close> is missing or empty; then
  the answer is the text \<open>No query string\<close>, whatever the tables, the item method and the
  working set are: nothing is scanned and no collection is computed.
\<close>

theorem search_bad_request:
  "((\<exists>code text. search dbs dba sq req lis = Status code text) \<longleftrightarrow>
      (query_q req = None \<or> query_q req = Some [])) \<and>
   ((query_q req = None \<or> query_q req = Some []) \<longrightarrow>
      (\<forall>dbs' dba' sq' lis'. search dbs' dba' sq' req (lis' :: 'a list) = Status 400 ''No query string''))"
  by (auto simp: search_def truthy_param_def split: option.splits sum.splits)

theorem search_bad_request_witness:
  "search [] [] by_author \<lparr>query_q = Some [], query_limit = None, mediaType = ''book''\<rparr> [''a'']
     = Status 400 ''No query string''"
  using search_bad_request [of "[]" "[]" by_author
      "\<lparr>query_q = Some [], query_limit = None, mediaType = ''book''\<rparr>" "[''a'']"]
  by auto











section \<open>Properties of the pagination\<close>














lemma example_fraction_limit:
  "query_number (Fin 0) (Some ''2.5'') = Fin (5 / 2) \<and>
   paginate (Fin (5 / 2)) (Fin 1) [0..<25] = [2, 3, 4]"
  by code_simp




section \<open>Properties of the listing\<close>

lemma split_on_nonempty: "split_on c s \<noteq> []"
  by (induction s) (auto split: list.splits)












lemma filter_step_total: "filter_step env req lis = (filtered, total1, fs) \<Longrightarrow> total1 = length filtered"
  by (auto simp: filter_step_def Let_def split: if_splits)

text \<open>
  Claim C10.  When collapsing is requested and the helper returns exactly one row, which
  stands for a collapsed series, step 2 leaves the filtered working set and its total as
  they are: the handler goes on as it does from the filtered items, the total of the
  payload is their number, and the rows of the page are taken from them, sorted.
\<close>

theorem collapse_guard:
  assumes "q_collapseseries req = Some ''1''"
    and "filter_step env req lis = (filtered, total1, fs)"
    and "collapseBookSeries env filtered fs (hideSingleBookSeries env) = [row]"
    and "get_prop row ''collapsedSeries'' = Inr cs" and "truthy cs"
  shows "collapse_step env True fs (filtered, total1) = Inr (filtered, total1) \<and>
     getLibraryItems env req lis =
       andThen (sort_step env req fs filtered)
         (\<lambda>ordered. Inr (make_payload req (length filtered) ordered)) \<and>
     (\<forall>ordered. sort_step env req fs filtered = Inr ordered \<longrightarrow>
        (\<exists>p. getLibraryItems env req lis = Inr p \<and> total p = length filtered \<and>
             results p = paginate (limit p) (page p) ordered))"
proof -
  have c: "collapse_step env True fs (filtered, total1) = Inr (filtered, total1)"
    using assms(3,4,5) by (simp add: collapse_step_def andThen_def)
  have t: "total1 = length filtered"
    using assms(2) by (rule filter_step_total)
  have g: "getLibraryItems env req lis =
       andThen (sort_step env req fs filtered)
         (\<lambda>ordered. Inr (make_payload req (length filtered) ordered))"
    using assms(1,2) c t by (simp add: getLibraryItems_def andThen_def split: sum.splits)
  have "\<exists>p. getLibraryItems env req lis = Inr p \<and> total p = length filtered \<and>
             results p = paginate (limit p) (page p) ordered"
    if "sort_step env req fs filtered = Inr ordered" for ordered
    using that by (simp add: g andThen_def make_payload_def Let_def)
  with c g show ?thesis by blast
qed

lemma example_collapse:
  "filter_step example_env example_request example_books = (example_books, 2, None) \<and>
   collapseBookSeries example_env example_books None (hideSingleBookSeries example_env)
     = [JObj [(''collapsedSeries'', JObj [(''name'', JStr ''Dune'')])]] \<and>
   get_prop (JObj [(''collapsedSeries'', JObj [(''name'', JStr ''Dune'')])]) ''collapsedSeries''
     = Inr (JObj [(''name'', JStr ''Dune'')]) \<and>
   truthy (JObj [(''name'', JStr ''Dune'')]) \<and>
   q_collapseseries example_request = Some ''1'' \<and>
   sort_step example_env example_request None example_books = Inr example_books \<and>
   paginate (Fin 0) (Fin 0) example_books = example_books"
  by code_simp

theorem collapse_guard_witness:
  "\<exists>p. getLibraryItems example_env example_request example_books = Inr p \<and> total p = 2 \<and>
     results p = paginate (limit p) (page p) example_books"
proof -
  note e = example_collapse
  have l: "length example_books = 2" by (simp add: example_books_def)
  have "\<forall>ordered. sort_step example_env example_request None example_books = Inr ordered \<longrightarrow>
        (\<exists>p. getLibraryItems example_env example_request example_books = Inr p \<and>
             total p = length example_books \<and>
             results p = paginate (limit p) (page p) ordered)"
    using collapse_guard [of example_request example_env example_books example_books 2 None
      "JObj [(''collapsedSeries'', JObj [(''name'', JStr ''Dune'')])]" "JObj [(''name'', JStr ''Dune'')]"]
      e by blast
  then have "\<exists>p. getLibraryItems example_env example_request example_books = Inr p \<and>
             total p = length example_books \<and>
             results p = paginate (limit p) (page p) example_books"
    using e by blast
  then show ?thesis
    by (simp add: l)
qed

section \<open>Properties of the sort\<close>

lemma directed_natural_same:
  "directed d (natural_compare ckey va vb) = Same \<longleftrightarrow> ckey (sort_rank va) = ckey (sort_rank vb)"
  by (cases d) (auto simp: directed_def natural_compare_def Let_def)



lemma compare_by_same_iff:
  "compare_by ckey sortArray a b = Inr Same \<longleftrightarrow> keys_same ckey sortArray a b"
proof (induction sortArray)
  case Nil
  then show ?case by (simp add: keys_same_def)
next
  case (Cons entry rest)
  show ?case
  proof (cases "snd entry a")
    case (Inl e)
    then show ?thesis by (simp add: keys_same_def)
  next
    case va: (Inr va)
    show ?thesis
    proof (cases "snd entry b")
      case (Inl e)
      with va show ?thesis by (simp add: keys_same_def)
    next
      case vb: (Inr vb)
      show ?thesis
        using Cons.IH directed_natural_same [of "fst entry" ckey va vb]
        by (cases "directed (fst entry) (natural_compare ckey va vb)")
          (simp_all add: va vb keys_same_def)
    qed
  qed
qed

lemma keys_same_trans2:
  "keys_same ckey sortArray k x \<Longrightarrow> keys_same ckey sortArray k y \<Longrightarrow> keys_same ckey sortArray x y"
  unfolding keys_same_def list_all_iff by fastforce



lemma insert_by_set: "insert_by c x ys = Inr zs \<Longrightarrow> set zs = insert x (set ys)"
proof (induction ys arbitrary: zs)
  case Nil
  then show ?case by auto
next
  case (Cons y ys)
  show ?case
  proof (cases "c x y")
    case (Inl e)
    with Cons.prems show ?thesis by simp
  next
    case (Inr r)
    show ?thesis
    proof (cases r)
      case After
      with Inr Cons.prems obtain zs' where z: "insert_by c x ys = Inr zs'" "zs = y # zs'"
        by (auto split: sum.splits)
      with Cons.IH [OF z(1)] show ?thesis by auto
    qed (use Inr Cons.prems in auto)
  qed
qed

lemma insert_by_count:
  "insert_by c x ys = Inr zs \<Longrightarrow> count_list zs v = count_list (x # ys) v"
proof (induction ys arbitrary: zs)
  case Nil
  then show ?case by auto
next
  case (Cons y ys)
  show ?case
  proof (cases "c x y")
    case (Inl e)
    with Cons.prems show ?thesis by simp
  next
    case (Inr r)
    show ?thesis
    proof (cases r)
      case After
      with Inr Cons.prems obtain zs' where z: "insert_by c x ys = Inr zs'" "zs = y # zs'"
        by (auto split: sum.splits)
      with Cons.IH [OF z(1)] show ?thesis by auto
    qed (use Inr Cons.prems in auto)
  qed
qed

lemma insert_by_filter:
  assumes "insert_by c x ys = Inr zs"
    and "\<And>y. P x \<Longrightarrow> P y \<Longrightarrow> c x y \<noteq> Inr After"
  shows "filter P zs = (if P x then x # filter P ys else filter P ys)"
  using assms(1)
proof (induction ys arbitrary: zs)
  case Nil
  then show ?case by auto
next
  case (Cons y ys)
  show ?case
  proof (cases "c x y")
    case (Inl e)
    with Cons.prems show ?thesis by simp
  next
    case (Inr r)
    show ?thesis
    proof (cases r)
      case After
      with Inr Cons.prems obtain zs' where z: "insert_by c x ys = Inr zs'" "zs = y # zs'"
        by (auto split: sum.splits)
      have "\<not> (P x \<and> P y)"
        using assms(2) [of y] Inr After by auto
      with Cons.IH [OF z(1)] z(2) show ?thesis by auto
    qed (use Inr Cons.prems in auto)
  qed
qed

lemma sort_with_filter:
  assumes "sort_with c xs = Inr ys"
    and "\<And>x y. P x \<Longrightarrow> P y \<Longrightarrow> c x y \<noteq> Inr After"
  shows "filter P ys = filter P xs"
  using assms(1)
proof (induction xs arbitrary: ys)
  case Nil
  then show ?case by simp
next
  case (Cons x xs)
  from Cons.prems obtain ys' where y: "sort_with c xs = Inr ys'" "insert_by c x ys' = Inr ys"
    by (auto split: sum.splits)
  from insert_by_filter [OF y(2), of P] assms(2) Cons.IH [OF y(1)] show ?case
    by auto
qed

lemma sort_with_count: "sort_with c xs = Inr ys \<Longrightarrow> count_list ys v = count_list xs v"
proof (induction xs arbitrary: ys)
  case Nil
  then show ?case by simp
next
  case (Cons x xs)
  from Cons.prems obtain ys' where y: "sort_with c xs = Inr ys'" "insert_by c x ys' = Inr ys"
    by (auto split: sum.splits)
  from insert_by_count [OF y(2), of v] Cons.IH [OF y(1)] show ?case by simp
qed

lemma sort_with_set: "sort_with c xs = Inr ys \<Longrightarrow> set ys = set xs"
proof (induction xs arbitrary: ys)
  case Nil
  then show ?case by simp
next
  case (Cons x xs)
  from Cons.prems obtain ys' where y: "sort_with c xs = Inr ys'" "insert_by c x ys' = Inr ys"
    by (auto split: sum.splits)
  from insert_by_set [OF y(2)] Cons.IH [OF y(1)] show ?case by simp
qed

lemma insert_by_total:
  assumes "\<And>y. y \<in> set ys \<Longrightarrow> \<exists>r. c x y = Inr r"
  shows "\<exists>zs. insert_by c x ys = Inr zs"
  using assms
proof (induction ys)
  case Nil
  then show ?case by simp
next
  case (Cons y ys)
  then obtain r zs where "c x y = Inr r" "insert_by c x ys = Inr zs" by fastforce
  then show ?case by (cases r) simp_all
qed

lemma sort_with_total:
  assumes "\<And>x y. x \<in> set xs \<Longrightarrow> y \<in> set xs \<Longrightarrow> \<exists>r. c x y = Inr r"
  shows "\<exists>ys. sort_with c xs = Inr ys"
  using assms
proof (induction xs)
  case Nil
  then show ?case by simp
next
  case (Cons x xs)
  then obtain ys where ys: "sort_with c xs = Inr ys" by fastforce
  have "\<exists>zs. insert_by c x ys = Inr zs"
    using Cons.prems sort_with_set [OF ys] by (intro insert_by_total) simp
  with ys show ?case by auto
qed

lemma compare_by_total:
  assumes "keys_defined sortArray a" "keys_defined sortArray b"
  shows "\<exists>r. compare_by ckey sortArray a b = Inr r"
  using assms
proof (induction sortArray)
  case Nil
  then show ?case by simp
next
  case (Cons entry rest)
  then obtain va vb r where "snd entry a = Inr va" "snd entry b = Inr vb"
      "compare_by ckey rest a b = Inr r"
    by (auto simp: keys_defined_def split: sum.splits)
  then show ?case
    by (cases "directed (fst entry) (natural_compare ckey va vb)") simp_all
qed








lemma fastSort_stable:
  assumes "fastSort_by ckey sortArray rows = Inr ordered"
  shows "filter (\<lambda>y. compare_by ckey sortArray x y = Inr Same) ordered
       = filter (\<lambda>y. compare_by ckey sortArray x y = Inr Same) rows"
proof (rule sort_with_filter)
  show "sort_with (compare_by ckey sortArray) rows = Inr ordered"
    using assms by (simp add: fastSort_by_def)
next
  fix u v
  assume "compare_by ckey sortArray x u = Inr Same" "compare_by ckey sortArray x v = Inr Same"
  then have "compare_by ckey sortArray u v = Inr Same"
    unfolding compare_by_same_iff by (rule keys_same_trans2)
  then show "compare_by ckey sortArray u v \<noteq> Inr After" by simp
qed

lemma fastSort_total:
  assumes "list_all (keys_defined sortArray) rows"
  shows "\<exists>ordered. fastSort_by ckey sortArray rows = Inr ordered"
  unfolding fastSort_by_def
proof (rule sort_with_total)
  fix x y assume "x \<in> set rows" "y \<in> set rows"
  with assms have "keys_defined sortArray x" "keys_defined sortArray y"
    by (simp_all add: list_all_iff)
  then show "\<exists>r. compare_by ckey sortArray x y = Inr r"
    by (rule compare_by_total)
qed

text \<open>
  Claim C8.  Let the sort of the environment be the modelled sort and \<open>sortArray\<close> the sort
  array of the request.  When no key function raises on a row, step 3 returns.  Whenever it
  returns, the rows whose keys equal those of any given row along the whole sort array
  stand in the result in the order they had before, and every row occurs as often as
  before.
\<close>

theorem sort_is_stable:
  assumes "naturalSort_by env = fastSort_by ckey"
    and "sortArray = build_sortArray env (library_mediaType req = ''book'') filterSeries
           (q_sort req) (q_desc req = Some ''1'') (q_collapseseries req = Some ''1'')"
  shows "(list_all (keys_defined sortArray) rows \<longrightarrow>
            (\<exists>ordered. sort_step env req filterSeries rows = Inr ordered)) \<and>
         (\<forall>ordered. sort_step env req filterSeries rows = Inr ordered \<longrightarrow>
            (\<forall>x. filter (\<lambda>y. compare_by ckey sortArray x y = Inr Same) ordered
                  = filter (\<lambda>y. compare_by ckey sortArray x y = Inr Same) rows) \<and>
            (\<forall>v. count_list ordered v = count_list rows v))"
proof (cases "sortArray = []")
  case True
  then have "sort_step env req filterSeries rows = Inr rows"
    using assms(2) by (simp add: sort_step_def)
  then show ?thesis by simp
next
  case False
  then have s: "sort_step env req filterSeries rows = fastSort_by ckey sortArray rows"
    using assms by (simp add: sort_step_def)
  show ?thesis
    unfolding s
    using fastSort_total [of sortArray rows ckey] fastSort_stable [of ckey sortArray rows]
      sort_with_count [of "compare_by ckey sortArray" rows]
    unfolding fastSort_by_def by blast
qed

lemma example_stable_sort:
  "list_all (keys_defined (build_sortArray example_sorting_env
       (library_mediaType example_sort_request = ''book'') None (q_sort example_sort_request)
       (q_desc example_sort_request = Some ''1'') (q_collapseseries example_sort_request = Some ''1'')))
     example_rows \<and>
   filter (\<lambda>y. compare_by example_ckey (build_sortArray example_sorting_env
       (library_mediaType example_sort_request = ''book'') None (q_sort example_sort_request)
       (q_desc example_sort_request = Some ''1'') (q_collapseseries example_sort_request = Some ''1''))
       (example_row ''3'' ''cc'') y = Inr Same) example_rows
   = [example_row ''1'' ''bb'', example_row ''3'' ''cc''] \<and>
   sort_step example_sorting_env example_sort_request None example_rows
   = Inr [example_row ''2'' ''a'', example_row ''1'' ''bb'', example_row ''3'' ''cc'']"
  by code_simp

theorem sort_is_stable_witness:
  "naturalSort_by example_sorting_env = fastSort_by example_ckey \<and>
   (\<exists>ordered. sort_step example_sorting_env example_sort_request None example_rows = Inr ordered \<and>
     filter (\<lambda>y. compare_by example_ckey (build_sortArray example_sorting_env
         (library_mediaType example_sort_request = ''book'') None (q_sort example_sort_request)
         (q_desc example_sort_request = Some ''1'') (q_collapseseries example_sort_request = Some ''1''))
         (example_row ''3'' ''cc'') y = Inr Same) ordered
       = [example_row ''1'' ''bb'', example_row ''3'' ''cc''])"
proof -
  define sortArray where "sortArray = build_sortArray example_sorting_env
       (library_mediaType example_sort_request = ''book'') None (q_sort example_sort_request)
       (q_desc example_sort_request = Some ''1'') (q_collapseseries example_sort_request = Some ''1'')"
  define same where "same = (\<lambda>y. compare_by example_ckey sortArray (example_row ''3'' ''cc'') y = Inr Same)"
  have n: "naturalSort_by example_sorting_env = fastSort_by example_ckey"
    by (simp add: example_sorting_env_def)
  note e = example_stable_sort [folded sortArray_def, folded same_def]
  from e have d: "list_all (keys_defined sortArray) example_rows" by (rule conjunct1)
  from e have f: "filter same example_rows = [example_row ''1'' ''bb'', example_row ''3'' ''cc'']"
    by simp
  note t = sort_is_stable [OF n sortArray_def, of example_rows]
  from t d obtain ordered where o: "sort_step example_sorting_env example_sort_request None example_rows = Inr ordered"
    by blast
  with t have "filter same ordered = filter same example_rows"
    unfolding same_def by blast
  with o f have "\<exists>ordered. sort_step example_sorting_env example_sort_request None example_rows = Inr ordered \<and>
     filter same ordered = [example_row ''1'' ''bb'', example_row ''3'' ''cc'']"
    by simp
  with n show ?thesis
    unfolding same_def sortArray_def by (rule conjI)
qed










end
